theory Spec2Isabelle
  imports Main "HOL-Library.Word" "HOL-Library.Signed_Division"
begin

section \<open>Data model of \<^verbatim>\<open>mpg123/mpg123.go\<close>\<close>

text \<open>
  The binding runs on a 64-bit platform: Go's \<^verbatim>\<open>int\<close>, \<^verbatim>\<open>int64\<close>, C's \<^verbatim>\<open>size_t\<close>,
  \<^verbatim>\<open>off_t\<close> and \<^verbatim>\<open>long\<close> are 64-bit words, C's \<^verbatim>\<open>int\<close> is a 32-bit word. Signed
  values are read with \<open>sint\<close>, unsigned ones with \<open>unat\<close>; a conversion between
  types of the same width keeps the bits.
\<close>

type_synonym byte = "8 word"
type_synonym go_int = "64 word"
type_synonym size_t = "64 word"
type_synonym off_t = "64 word"
type_synonym c_long = "64 word"
type_synonym c_int = "32 word"

text \<open>
  The status codes of \<^verbatim>\<open>mpg123.h\<close> (the header is not part of the repository; these
  are the values of its enum \<^verbatim>\<open>mpg123_errors\<close>). Only their being distinct matters.
\<close>

definition MPG123_DONE :: c_int where "MPG123_DONE = - 12"
definition MPG123_NEW_FORMAT :: c_int where "MPG123_NEW_FORMAT = - 11"
definition MPG123_NEED_MORE :: c_int where "MPG123_NEED_MORE = - 10"
definition MPG123_ERR :: c_int where "MPG123_ERR = - 1"
definition MPG123_OK :: c_int where "MPG123_OK = 0"

definition OUT_MAX_BUFFER_SIZE :: nat where "OUT_MAX_BUFFER_SIZE = 32768"

text \<open>
  Go error values. \<open>EOF\<close> is the package's own \<^verbatim>\<open>var EOF = errors.New("EOF")\<close>,
  \<open>io_EOF\<close> is the standard library's \<^verbatim>\<open>io.EOF\<close>, \<open>Errorf s\<close> is a value made by
  \<^verbatim>\<open>fmt.Errorf\<close> with message \<open>s\<close>, and \<open>stream_error s\<close> is any other error value an
  input stream hands out. \<^verbatim>\<open>nil\<close> is \<open>None\<close> of \<open>go_error option\<close>.
\<close>

datatype go_error = EOF | io_EOF | Errorf string | stream_error string

text \<open>
  What ends a call without a Go return value: a run-time panic of Go, or the native
  engine having stored more bytes than the Go buffer it was given can hold.
\<close>

datatype fault = index_out_of_range | slice_bounds_out_of_range | native_out_of_bounds

text \<open>
  The native engine is a black box behind \<^verbatim>\<open>*C.mpg123_handle\<close>. Its state is a value
  of type \<open>'h\<close> and each primitive the binding calls is a function of that state:
  \<^item> \<open>mpg123_read h outmemsize\<close> gives the status and \<^verbatim>\<open>*done\<close>;
  \<^item> \<open>mpg123_feed h bytes\<close> gives the status;
  \<^item> \<open>mpg123_decode h input outmemsize\<close> (\<open>input = None\<close> for the \<^verbatim>\<open>nil, 0\<close> call)
    gives the status and the bytes stored at the start of the output memory, whose
    number is \<^verbatim>\<open>*done\<close>;
  \<^item> \<open>mpg123_close\<close>, \<open>mpg123_getformat\<close>, \<open>mpg123_format_none\<close>, \<open>mpg123_format\<close>
    and \<open>mpg123_seek\<close> as in the header;
  \<^item> \<open>mpg123_strerror h\<close> is the text of the most recent error;
  \<^item> \<open>mpg123_encsize\<close> is the byte width of an encoding.
\<close>

record 'h engine =
  mpg123_read :: "'h \<Rightarrow> size_t \<Rightarrow> (c_int \<times> size_t) \<times> 'h"
  mpg123_feed :: "'h \<Rightarrow> byte list \<Rightarrow> c_int \<times> 'h"
  mpg123_decode :: "'h \<Rightarrow> byte list option \<Rightarrow> size_t \<Rightarrow> (c_int \<times> byte list) \<times> 'h"
  mpg123_close :: "'h \<Rightarrow> c_int \<times> 'h"
  mpg123_getformat :: "'h \<Rightarrow> (c_long \<times> c_int \<times> c_int) \<times> 'h"
  mpg123_format_none :: "'h \<Rightarrow> c_int \<times> 'h"
  mpg123_format :: "'h \<Rightarrow> c_long \<Rightarrow> c_int \<Rightarrow> c_int \<Rightarrow> c_int \<times> 'h"
  mpg123_seek :: "'h \<Rightarrow> off_t \<Rightarrow> c_int \<Rightarrow> off_t \<times> 'h"
  mpg123_strerror :: "'h \<Rightarrow> string"
  mpg123_encsize :: "c_int \<Rightarrow> c_int"

text \<open>
  An \<^verbatim>\<open>io.Reader\<close> with state \<open>'s\<close>: \<open>rd s len\<close> is \<^verbatim>\<open>src.Read(buf)\<close> on a buffer of
  \<open>len\<close> bytes. It gives the bytes read (\<^verbatim>\<open>buf[0:n]\<close>, so \<open>n\<close> is their number) and the
  error.
\<close>

type_synonym 's reader = "'s \<Rightarrow> nat \<Rightarrow> (byte list \<times> go_error option) \<times> 's"

text \<open>
  \<^verbatim>\<open>type DecoderReader struct\<close>. The fields \<open>decoder\<close> and \<open>src\<close> are references in Go;
  here they hold the current state of the engine handle and of the input stream.
\<close>

record ('h, 's) DecoderReader =
  decoder :: 'h
  src :: 's
  fps :: go_int
  channels :: go_int
  paranoid :: bool

section \<open>Operations\<close>

text \<open>
  Go's \<^verbatim>\<open>/\<close> on \<^verbatim>\<open>int\<close> truncates towards zero (both divisors in this file are
  non-zero constants, so the division never panics).
\<close>

definition go_quo :: "go_int \<Rightarrow> go_int \<Rightarrow> go_int" where
  "go_quo a b = word_of_int (sint a sdiv sint b)"

definition strerror :: "'h engine \<Rightarrow> 'h \<Rightarrow> string" where
  "strerror eng h = mpg123_strerror eng h"

definition mpg123_error :: "'h engine \<Rightarrow> 'h \<Rightarrow> go_error" where
  "mpg123_error eng h = Errorf (''mpg123 error: '' @ strerror eng h)"

text \<open>\<^verbatim>\<open>func (d *Decoder) GetFormat() (rate int, channels int, encoding int)\<close>\<close>

definition GetFormat :: "'h engine \<Rightarrow> 'h \<Rightarrow> (go_int \<times> go_int \<times> go_int) \<times> 'h" where
  "GetFormat eng h =
     (case mpg123_getformat eng h of
        ((cRate, cChans, cEnc), h') \<Rightarrow> ((cRate, scast cChans, scast cEnc), h'))"

text \<open>
  \<^verbatim>\<open>func (d *Decoder) FormatNone()\<close> and
  \<^verbatim>\<open>func (d *Decoder) Format(rate int, channels int, encodings int)\<close>; both drop the
  engine's status.
\<close>

definition FormatNone :: "'h engine \<Rightarrow> 'h \<Rightarrow> 'h" where
  "FormatNone eng h = snd (mpg123_format_none eng h)"

definition Format :: "'h engine \<Rightarrow> 'h \<Rightarrow> go_int \<Rightarrow> go_int \<Rightarrow> go_int \<Rightarrow> 'h" where
  "Format eng h rate chans encodings =
     snd (mpg123_format eng h rate (ucast chans) (ucast encodings))"

text \<open>\<^verbatim>\<open>func GetEncodingBitsPerSample(encoding int) int\<close>\<close>

definition GetEncodingBitsPerSample :: "'h engine \<Rightarrow> go_int \<Rightarrow> go_int" where
  "GetEncodingBitsPerSample eng encoding = 8 * scast (mpg123_encsize eng (ucast encoding))"

text \<open>\<^verbatim>\<open>func (d *Decoder) Close() error\<close>\<close>

definition Close :: "'h engine \<Rightarrow> 'h \<Rightarrow> go_error option \<times> 'h" where
  "Close eng h =
     (case mpg123_close eng h of
        (err, h') \<Rightarrow> (if err \<noteq> MPG123_OK then Some (mpg123_error eng h') else None, h'))"

text \<open>
  The native read, \<^verbatim>\<open>C.do_mpg123_read(d.handle, &buf[0], outmemsize, &done)\<close>: taking
  \<^verbatim>\<open>&buf[0]\<close> panics on an empty buffer, and an engine that stores more than
  \<open>length buf\<close> bytes has written outside the buffer.
\<close>

definition do_mpg123_read ::
  "'h engine \<Rightarrow> 'h \<Rightarrow> byte list \<Rightarrow> size_t \<Rightarrow> (fault + c_int \<times> size_t) \<times> 'h" where
  "do_mpg123_read eng h buf outmemsize =
     (if buf = [] then (Inl index_out_of_range, h)
      else case mpg123_read eng h outmemsize of
        ((err, done), h') \<Rightarrow>
          if length buf < unat done then (Inl native_out_of_bounds, h')
          else (Inr (err, done), h'))"

text \<open>\<^verbatim>\<open>func (d *Decoder) Read(buf []byte) (int, error)\<close>\<close>

definition Decoder_Read ::
  "'h engine \<Rightarrow> 'h \<Rightarrow> byte list \<Rightarrow> (fault + go_int \<times> go_error option) \<times> 'h" where
  "Decoder_Read eng h buf =
     (case do_mpg123_read eng h buf (of_nat (length buf)) of
        (Inl f, h') \<Rightarrow> (Inl f, h')
      | (Inr (err, done), h') \<Rightarrow>
          if err = MPG123_DONE then (Inr (done, Some EOF), h')
          else if err \<noteq> MPG123_OK then (Inr (done, Some (mpg123_error eng h')), h')
          else (Inr (done, None), h'))"

text \<open>\<^verbatim>\<open>func (d *Decoder) ReadAudioFrames(frames int, buf []byte) (int, error)\<close>\<close>

definition framesToBytes :: "'h engine \<Rightarrow> go_int \<Rightarrow> go_int \<Rightarrow> go_int \<Rightarrow> go_int" where
  "framesToBytes eng enc frames chans =
     (let bytesPerSample = go_quo (GetEncodingBitsPerSample eng enc) 8
      in bytesPerSample * frames * chans)"

definition ReadAudioFrames ::
  "'h engine \<Rightarrow> 'h \<Rightarrow> go_int \<Rightarrow> byte list \<Rightarrow> (fault + go_int \<times> go_error option) \<times> 'h" where
  "ReadAudioFrames eng h frames buf =
     (case GetFormat eng h of
        ((rate, chans, enc), h1) \<Rightarrow>
          (case do_mpg123_read eng h1 buf (framesToBytes eng enc frames chans) of
             (Inl f, h') \<Rightarrow> (Inl f, h')
           | (Inr (err, done), h') \<Rightarrow>
               if err = MPG123_DONE then (Inr (done, Some EOF), h')
               else if err \<noteq> MPG123_OK then (Inr (done, Some (mpg123_error eng h')), h')
               else (Inr (done, None), h')))"

text \<open>\<^verbatim>\<open>func (d *Decoder) DecodeSamples(samples int, audio []byte) (int, error)\<close>\<close>

definition DecodeSamples ::
  "'h engine \<Rightarrow> 'h \<Rightarrow> go_int \<Rightarrow> byte list \<Rightarrow> (fault + go_int \<times> go_error option) \<times> 'h" where
  "DecodeSamples eng h samples audio =
     (case ReadAudioFrames eng h samples audio of
        (Inl f, h') \<Rightarrow> (Inl f, h')
      | (Inr (rLen, err), h') \<Rightarrow>
          if err = Some EOF then (Inr (0, None), h')
          else (Inr (go_quo rLen 4, None), h'))"

text \<open>\<^verbatim>\<open>func (d *Decoder) Feed(buf []byte) error\<close>: \<^verbatim>\<open>&buf[0]\<close> panics on an empty slice.\<close>

definition Feed :: "'h engine \<Rightarrow> 'h \<Rightarrow> byte list \<Rightarrow> (fault + go_error option) \<times> 'h" where
  "Feed eng h buf =
     (if buf = [] then (Inl index_out_of_range, h)
      else case mpg123_feed eng h buf of
        (err, h') \<Rightarrow>
          (Inr (if err \<noteq> MPG123_OK then Some (mpg123_error eng h') else None), h'))"

text \<open>\<^verbatim>\<open>func (d *Decoder) Seek(offset int64, whence int) (int64, error)\<close>\<close>

definition Seek ::
  "'h engine \<Rightarrow> 'h \<Rightarrow> 64 word \<Rightarrow> go_int \<Rightarrow> (64 word \<times> go_error option) \<times> 'h" where
  "Seek eng h offset whence =
     (let c_offset = offset;
          c_whence = ucast whence
      in case mpg123_seek eng h c_offset c_whence of
           (s_offset, h') \<Rightarrow> ((s_offset, None), h'))"

section \<open>The streaming reader\<close>

text \<open>\<^verbatim>\<open>func (dr *DecoderReader) Paranoid() *DecoderReader\<close>\<close>

definition Paranoid :: "('h, 's) DecoderReader \<Rightarrow> ('h, 's) DecoderReader" where
  "Paranoid dr = dr\<lparr>paranoid := True\<rparr>"

text \<open>
  \<^verbatim>\<open>func (dr DecoderReader) Nuke()\<close>: closes the decoder and drops the error of
  \<^verbatim>\<open>Close\<close>.
\<close>

definition Nuke :: "'h engine \<Rightarrow> ('h, 's) DecoderReader \<Rightarrow> ('h, 's) DecoderReader" where
  "Nuke eng dr = dr\<lparr>decoder := snd (Close eng (decoder dr))\<rparr>"

text \<open>
  \<^verbatim>\<open>func (d *Decoder) DecoderReader(src, fps, channels, encoding) *DecoderReader\<close>:
  restricts the engine to the one output format, then builds the struct.
\<close>

definition Decoder_DecoderReader ::
  "'h engine \<Rightarrow> 'h \<Rightarrow> 's \<Rightarrow> go_int \<Rightarrow> go_int \<Rightarrow> go_int \<Rightarrow> ('h, 's) DecoderReader" where
  "Decoder_DecoderReader eng d s f c encoding =
     (let d1 = FormatNone eng d;
          d2 = Format eng d1 f c encoding
      in \<lparr>decoder = d2, src = s, fps = f, channels = c, paranoid = False\<rparr>)"

text \<open>
  One pass of the \<^verbatim>\<open>for { ... }\<close> of \<^verbatim>\<open>DecoderReader.Read\<close>: either the call ends
  (\<open>Return\<close>, with a Go result or a fault) or the loop goes round again (\<open>Again\<close>).
\<close>

datatype ('r, 'st) pass = Return 'r 'st | Again 'st

text \<open>
  Lines 283 to 306, \<^verbatim>\<open>// Read output\<close>. \<open>err\<close> is the variable \<^verbatim>\<open>err\<close> as the feeding
  part left it. On \<^verbatim>\<open>MPG123_NEW_FORMAT\<close> the format is queried for the log line, then
  the cases fall through to the shared one; any other status leaves the \<^verbatim>\<open>switch\<close>
  without a matching case. The call \<^verbatim>\<open>C.mpg123_read(handle, &bytes[0], len(bytes), &done)\<close>
  is the native read of \<open>do_mpg123_read\<close> with the whole buffer as its size.
\<close>

definition Read_output ::
  "'h engine \<Rightarrow> ('h, 's) DecoderReader \<Rightarrow> byte list \<Rightarrow> go_error option \<Rightarrow>
     (fault + go_int \<times> go_error option, ('h, 's) DecoderReader) pass" where
  "Read_output eng dr bytes err =
     (case do_mpg123_read eng (decoder dr) bytes (of_nat (length bytes)) of
        (Inl f, h') \<Rightarrow> Return (Inl f) (dr\<lparr>decoder := h'\<rparr>)
      | (Inr (msg, done), h') \<Rightarrow>
          if msg = MPG123_NEW_FORMAT \<or> msg = MPG123_OK \<or> msg = MPG123_DONE
               \<or> msg = MPG123_NEED_MORE
          then
            (let dr' = dr\<lparr>decoder :=
                        (if msg = MPG123_NEW_FORMAT then snd (GetFormat eng h') else h')\<rparr>
             in if 0 < done then Return (Inr (done, None)) dr'
                else if err = Some io_EOF then Return (Inr (done, Some io_EOF)) (Nuke eng dr')
                else Again dr')
          else Again (dr\<lparr>decoder := h'\<rparr>))"

text \<open>
  Lines 269 to 281, \<^verbatim>\<open>// Feed data\<close>, followed by the reading part. The scratch buffer
  has \<open>64 * 1024\<close> bytes; \<^verbatim>\<open>buf[0:n]\<close> panics when \<open>n\<close> exceeds it, and \<^verbatim>\<open>Feed\<close>
  panics on \<open>n = 0\<close>. A failed \<^verbatim>\<open>Feed\<close> is logged and its error stays in \<^verbatim>\<open>err\<close>.
\<close>

definition Read_pass ::
  "'h engine \<Rightarrow> 's reader \<Rightarrow> ('h, 's) DecoderReader \<Rightarrow> byte list \<Rightarrow>
     (fault + go_int \<times> go_error option, ('h, 's) DecoderReader) pass" where
  "Read_pass eng rd dr bytes =
     (case rd (src dr) (64 * 1024) of
        ((data, err), s') \<Rightarrow>
          (let dr1 = dr\<lparr>src := s'\<rparr> in
           if err = None then
             (if 64 * 1024 < length data then Return (Inl slice_bounds_out_of_range) dr1
              else case Feed eng (decoder dr1) data of
                (Inl f, h') \<Rightarrow> Return (Inl f) (dr1\<lparr>decoder := h'\<rparr>)
              | (Inr err', h') \<Rightarrow> Read_output eng (dr1\<lparr>decoder := h'\<rparr>) bytes err')
           else if paranoid dr1 then Return (Inr (0, err)) (Nuke eng dr1)
           else Read_output eng dr1 bytes err))"

text \<open>
  \<^verbatim>\<open>func (dr DecoderReader) Read(bytes []byte) (int, error)\<close>. The loop has no bound,
  so the call is a partial function: \<open>None\<close> is a call that never returns.
\<close>

partial_function (option) DecoderReader_Read ::
  "'h engine \<Rightarrow> 's reader \<Rightarrow> ('h, 's) DecoderReader \<Rightarrow> byte list \<Rightarrow>
     ((fault + go_int \<times> go_error option) \<times> ('h, 's) DecoderReader) option" where
  "DecoderReader_Read eng rd dr bytes =
     (case Read_pass eng rd dr bytes of
        Return r dr' \<Rightarrow> Some (r, dr')
      | Again dr' \<Rightarrow> DecoderReader_Read eng rd dr' bytes)"

declare DecoderReader_Read.simps [code]

section \<open>One-shot feed and decode\<close>

text \<open>
  The size the engine reports is the number of bytes it stored, so \<^verbatim>\<open>out[:outLen]\<close>
  is the list of those bytes. \<^verbatim>\<open>outLen = int(size)\<close>, and nothing is appended unless
  \<^verbatim>\<open>outLen > 0\<close>.
\<close>

definition write_out :: "byte list \<Rightarrow> byte list \<Rightarrow> byte list" where
  "write_out b w =
     (let outLen = (of_nat (length w) :: go_int)
      in if 0 <s outLen then b @ take (nat (sint outLen)) w else b)"

text \<open>
  The draining \<^verbatim>\<open>for { ... }\<close> of \<^verbatim>\<open>Decode\<close>, lines 357 to 366. It gives the last
  status and the buffer \<^verbatim>\<open>b\<close>.
\<close>

partial_function (option) Decode_drain ::
  "'h engine \<Rightarrow> 'h \<Rightarrow> byte list \<Rightarrow> ((fault + c_int \<times> byte list) \<times> 'h) option" where
  "Decode_drain eng h b =
     (case mpg123_decode eng h None (of_nat OUT_MAX_BUFFER_SIZE) of
        ((ret, w), h') \<Rightarrow>
          if OUT_MAX_BUFFER_SIZE < length w then Some (Inl native_out_of_bounds, h')
          else if ret = MPG123_ERR \<or> ret = MPG123_NEED_MORE then Some (Inr (ret, b), h')
          else Decode_drain eng h' (write_out b w))"

declare Decode_drain.simps [code]

text \<open>
  \<^verbatim>\<open>func (d *Decoder) Decode(buf []byte) ([]byte, error)\<close>. A \<^verbatim>\<open>nil\<close> slice is the
  empty list.
\<close>

definition Decode_rest ::
  "'h engine \<Rightarrow> 'h \<Rightarrow> byte list \<Rightarrow> ((fault + byte list \<times> go_error option) \<times> 'h) option" where
  "Decode_rest eng h w =
     (case Decode_drain eng h (write_out [] w) of
        None \<Rightarrow> None
      | Some (Inl f, h') \<Rightarrow> Some (Inl f, h')
      | Some (Inr (ret, b), h') \<Rightarrow>
          if ret = MPG123_ERR then Some (Inr ([], Some (mpg123_error eng h')), h')
          else Some (Inr (b, None), h'))"

definition Decode ::
  "'h engine \<Rightarrow> 'h \<Rightarrow> byte list \<Rightarrow> ((fault + byte list \<times> go_error option) \<times> 'h) option" where
  "Decode eng h buf =
     (if buf = [] then Some (Inl index_out_of_range, h)
      else case mpg123_decode eng h (Some buf) (of_nat OUT_MAX_BUFFER_SIZE) of
        ((ret, w), h1) \<Rightarrow>
          if OUT_MAX_BUFFER_SIZE < length w then Some (Inl native_out_of_bounds, h1)
          else if ret = MPG123_NEW_FORMAT
          then Decode_rest eng (snd (mpg123_getformat eng h1)) w
          else if ret = MPG123_ERR \<or> ret = MPG123_NEED_MORE
          then Some (Inr ([], Some (mpg123_error eng h1)), h1)
          else Decode_rest eng h1 w)"

section \<open>A scripted engine and a scripted input stream\<close>

text \<open>
  To run the operations on concrete inputs, an engine that replays a script: each native
  read answers with the next scripted status and as many of the scripted bytes as the
  requested size allows, each native decode with the next scripted status and bytes.
  Feeds are recorded, closes are counted. With its script used up the engine is in its
  error state for reads and asks for more input on decodes.
\<close>

record script =
  read_script :: "(c_int \<times> size_t) list"
  decode_script :: "(c_int \<times> byte list) list"
  fed :: "byte list list"
  closes :: nat
  format :: "c_long \<times> c_int \<times> c_int"

definition scripted :: "script engine" where
  "scripted =
     \<lparr>mpg123_read = (\<lambda>h n. case read_script h of
          [] \<Rightarrow> ((MPG123_ERR, 0), h)
        | (st, avail) # rs \<Rightarrow> ((st, min avail n), h\<lparr>read_script := rs\<rparr>)),
      mpg123_feed = (\<lambda>h bs. (MPG123_OK, h\<lparr>fed := fed h @ [bs]\<rparr>)),
      mpg123_decode = (\<lambda>h inp n. case decode_script h of
          [] \<Rightarrow> ((MPG123_NEED_MORE, []), h)
        | (st, w) # rs \<Rightarrow> ((st, take (unat n) w), h\<lparr>decode_script := rs\<rparr>)),
      mpg123_close = (\<lambda>h. (MPG123_OK, h\<lparr>closes := Suc (closes h)\<rparr>)),
      mpg123_getformat = (\<lambda>h. (format h, h)),
      mpg123_format_none = (\<lambda>h. (MPG123_OK, h)),
      mpg123_format = (\<lambda>h r c e. (MPG123_OK, h\<lparr>format := (r, c, e)\<rparr>)),
      mpg123_seek = (\<lambda>h off wh. (if wh = 0 then off else - 1, h)),
      mpg123_strerror = (\<lambda>h. ''scripted''),
      mpg123_encsize = (\<lambda>enc. if enc = 0xD0 then 2 else 0)\<rparr>"

definition fresh :: "(c_int \<times> size_t) list \<Rightarrow> (c_int \<times> byte list) list \<Rightarrow> script" where
  "fresh rs ds =
     \<lparr>read_script = rs, decode_script = ds, fed = [], closes = 0,
      format = (44100, 2, 0xD0)\<rparr>"

text \<open>
  An input stream that replays a list of results and reports end of input once the list
  is used up.
\<close>

definition replay :: "(byte list \<times> go_error option) list reader" where
  "replay s n = (case s of [] \<Rightarrow> (([], Some io_EOF), []) | r # rs \<Rightarrow> (r, rs))"

text \<open>Concrete sessions used below.\<close>

definition dr_ok :: "(script, (byte list \<times> go_error option) list) DecoderReader" where
  "dr_ok =
     Decoder_DecoderReader scripted (fresh [(MPG123_OK, 4)] []) [([1, 2, 3], None)]
       44100 2 0xD0"

definition dr_failfast :: "(script, (byte list \<times> go_error option) list) DecoderReader" where
  "dr_failfast =
     Paranoid (Decoder_DecoderReader scripted (fresh [] [])
       [([], Some (stream_error ''reset''))] 44100 2 0xD0)"

definition dr_tail :: "(script, (byte list \<times> go_error option) list) DecoderReader" where
  "dr_tail =
     Decoder_DecoderReader scripted (fresh [(MPG123_NEED_MORE, 0)] [])
       [([1, 2, 3], Some io_EOF)] 44100 2 0xD0"

definition dr_stuck :: "(script, (byte list \<times> go_error option) list) DecoderReader" where
  "dr_stuck = Decoder_DecoderReader scripted (fresh [] []) [] 44100 2 0xD0"

definition mono16 :: script where
  "mono16 = (fresh [(MPG123_OK, 1000)] [])\<lparr>format := (44100, 1, 0xD0)\<rparr>"

text \<open>
  The scripted engine with the behaviour of a closed handle: once \<open>mpg123_close\<close> has been
  called, every read and every feed answers \<^verbatim>\<open>MPG123_ERR\<close>.
\<close>

definition closing :: "script engine" where
  "closing =
     scripted
       \<lparr>mpg123_read := (\<lambda>h n. if closes h \<noteq> 0 then ((MPG123_ERR, 0), h)
                              else mpg123_read scripted h n),
        mpg123_feed := (\<lambda>h bs. if closes h \<noteq> 0 then (MPG123_ERR, h)
                               else mpg123_feed scripted h bs)\<rparr>"

text \<open>
  A lenient and a fail-fast session on that engine, with the states they go through. The
  lenient one's input stream is used up; the fail-fast one's reports end of input twice.
\<close>

definition dr_lenient_end :: "(script, (byte list \<times> go_error option) list) DecoderReader" where
  "dr_lenient_end =
     Decoder_DecoderReader closing (fresh [(MPG123_NEED_MORE, 0)] []) [] 44100 2 0xD0"

definition dr_lenient_end1 :: "(script, (byte list \<times> go_error option) list) DecoderReader" where
  "dr_lenient_end1 =
     \<lparr>decoder = \<lparr>read_script = [], decode_script = [], fed = [], closes = 1,
         format = (44100, 2, 208)\<rparr>,
      src = [], fps = 44100, channels = 2, paranoid = False\<rparr>"

definition dr_failfast_end :: "(script, (byte list \<times> go_error option) list) DecoderReader" where
  "dr_failfast_end =
     Paranoid (Decoder_DecoderReader closing (fresh [] [])
       [([], Some io_EOF), ([], Some io_EOF)] 44100 2 0xD0)"

definition dr_failfast_end1 :: "(script, (byte list \<times> go_error option) list) DecoderReader" where
  "dr_failfast_end1 =
     \<lparr>decoder = \<lparr>read_script = [], decode_script = [], fed = [], closes = 1,
         format = (44100, 2, 208)\<rparr>,
      src = [([], Some io_EOF)], fps = 44100, channels = 2, paranoid = True\<rparr>"

definition dr_failfast_end2 :: "(script, (byte list \<times> go_error option) list) DecoderReader" where
  "dr_failfast_end2 =
     \<lparr>decoder = \<lparr>read_script = [], decode_script = [], fed = [], closes = 2,
         format = (44100, 2, 208)\<rparr>,
      src = [], fps = 44100, channels = 2, paranoid = True\<rparr>"

section \<open>Predicates on runs\<close>

text \<open>
  A lenient session on the scripted engine whose input stream is used up (it reports end
  of input on every read) and whose engine is in its error state.
\<close>

definition stuck ::
  "script engine \<Rightarrow> (byte list \<times> go_error option) list reader \<Rightarrow>
     (script, (byte list \<times> go_error option) list) DecoderReader \<Rightarrow> byte list \<Rightarrow> bool" where
  "stuck eng rd dr bytes \<longleftrightarrow>
     eng = scripted \<and> rd = replay \<and> src dr = [] \<and> read_script (decoder dr) = [] \<and>
     \<not> paranoid dr \<and> bytes \<noteq> []"

text \<open>
  The state of an input stream after \<open>k\<close> reads into the scratch buffer, and the
  statuses the \<^verbatim>\<open>switch\<close> of \<^verbatim>\<open>DecoderReader.Read\<close> has a case for.
\<close>

fun src_after :: "'s reader \<Rightarrow> nat \<Rightarrow> 's \<Rightarrow> 's" where
  "src_after rd 0 s = s"
| "src_after rd (Suc k) s = src_after rd k (snd (rd s (64 * 1024)))"

definition handled :: "c_int \<Rightarrow> bool" where
  "handled msg \<longleftrightarrow>
     msg = MPG123_NEW_FORMAT \<or> msg = MPG123_OK \<or> msg = MPG123_DONE \<or>
     msg = MPG123_NEED_MORE"

text \<open>
  What a returned result of \<^verbatim>\<open>DecoderReader.Read\<close> can be: bytes and no error; no bytes
  and \<^verbatim>\<open>io.EOF\<close>; or, in fail-fast mode, no bytes and the error the input stream reported
  on one of the reads of the call. A fault is not a return.
\<close>

definition outcome ::
  "'s reader \<Rightarrow> ('h, 's) DecoderReader \<Rightarrow> (fault + go_int \<times> go_error option) \<times> 'st \<Rightarrow> bool" where
  "outcome rd dr y =
     (case fst y of
        Inl f \<Rightarrow> True
      | Inr (n, e) \<Rightarrow>
          (0 <s n \<and> e = None) \<or> (n = 0 \<and> e = Some io_EOF) \<or>
          (n = 0 \<and> paranoid dr \<and> e \<noteq> None \<and>
           (\<exists>k. snd (fst (rd (src_after rd k (src dr)) (64 * 1024))) = e)))"

text \<open>
  A lenient session on the engine \<open>closing\<close> whose input stream is used up and whose
  decoder has been closed.
\<close>

definition closed_stuck ::
  "script engine \<Rightarrow> (byte list \<times> go_error option) list reader \<Rightarrow>
     (script, (byte list \<times> go_error option) list) DecoderReader \<Rightarrow> byte list \<Rightarrow> bool" where
  "closed_stuck eng rd dr bytes \<longleftrightarrow>
     eng = closing \<and> rd = replay \<and> src dr = [] \<and> closes (decoder dr) \<noteq> 0 \<and>
     \<not> paranoid dr \<and> bytes \<noteq> []"

section \<open>Evaluation\<close>

lemmas status_defs =
  MPG123_DONE_def MPG123_NEW_FORMAT_def MPG123_NEED_MORE_def MPG123_ERR_def MPG123_OK_def

lemmas run_defs =
  Read_pass_def Read_output_def Feed_def do_mpg123_read_def scripted_def fresh_def replay_def
  Decoder_DecoderReader_def FormatNone_def Format_def Paranoid_def Nuke_def Close_def GetFormat_def status_defs
  mpg123_error_def strerror_def Let_def

lemmas closing_defs = closing_def run_defs

lemma Read_Return:
  "Read_pass eng rd dr bytes = Return r dr' \<Longrightarrow>
     DecoderReader_Read eng rd dr bytes = Some (r, dr')"
  by (subst DecoderReader_Read.simps) simp

lemma Read_Again:
  "Read_pass eng rd dr bytes = Again dr' \<Longrightarrow>
     DecoderReader_Read eng rd dr bytes = DecoderReader_Read eng rd dr' bytes"
  by (subst DecoderReader_Read.simps) simp

text \<open>Every pass reads the input stream once and leaves the mode as it is.\<close>

lemma Read_pass_Again:
  assumes "Read_pass eng rd dr bytes = Again dr'"
  shows "src dr' = snd (rd (src dr) (64 * 1024)) \<and> paranoid dr' = paranoid dr"
  using assms
  by (auto simp: Read_pass_def Read_output_def Nuke_def Let_def
      split: prod.splits sum.splits if_splits)

lemma Read_pass_Return_src:
  "Read_pass eng rd dr bytes = Return r dr' \<Longrightarrow> src dr' = snd (rd (src dr) (64 * 1024))"
  by (auto simp: Read_pass_def Read_output_def Nuke_def Let_def
      split: prod.splits sum.splits if_splits)

section \<open>Words\<close>

lemma pos_signed:
  assumes a: "0 < (d :: 64 word)" and b: "unat d < 2 ^ 63"
  shows "0 <s d"
proof -
  have u: "uint d = int (unat d)" by (rule uint_nat)
  have "int (unat d) < int (2 ^ 63)" using b by (simp only: of_nat_less_iff)
  then have "int (unat d) < 2 ^ 63" by simp
  with u have lt: "uint d < 2 ^ 63" by simp
  have ge: "- (2 ^ 63) \<le> uint d"
  proof -
    have "0 \<le> uint d" by (rule uint_ge_0)
    moreover have "- (2 ^ 63) \<le> (0 :: int)" by simp
    ultimately show ?thesis by (rule order_trans [rotated])
  qed
  have "sint d = signed_take_bit (LENGTH(64) - Suc 0) (uint d)" by (rule sint_uint)
  also have "\<dots> = signed_take_bit 63 (uint d)" by simp
  also have "\<dots> = uint d" using ge lt by (rule signed_take_bit_int_eq_self)
  finally have s: "sint d = uint d" .
  have "0 < uint d" using a by (simp only: word_less_def uint_0_eq)
  with s show ?thesis by (simp only: word_sless_alt sint_0)
qed

section \<open>The streaming reader never returns \<open>(0, nil)\<close>\<close>

lemma do_mpg123_read_bound:
  "do_mpg123_read eng h buf sz = (Inr (st, dn), h') \<Longrightarrow> unat dn \<le> length buf"
  by (auto simp: do_mpg123_read_def split: if_splits prod.splits)

lemma Read_output_Return:
  assumes "Read_output eng dr bytes err = Return (Inr (n, e)) dr'"
    and "length bytes < 2 ^ 63"
  shows "(0 <s n \<and> e = None) \<or> (n = 0 \<and> e = Some io_EOF)"
proof (cases "do_mpg123_read eng (decoder dr) bytes (of_nat (length bytes))")
  case (Pair r h')
  show ?thesis
  proof (cases r)
    case (Inl f)
    with Pair assms show ?thesis by (simp add: Read_output_def)
  next
    case (Inr p)
    obtain msg dn where p: "p = (msg, dn)" by (cases p)
    from Pair Inr p have "unat dn \<le> length bytes" by (auto dest: do_mpg123_read_bound)
    with assms(2) have b: "unat dn < 2 ^ 63" by simp
    from assms(1) Pair Inr p
    have "(0 < dn \<and> n = dn \<and> e = None) \<or> (n = 0 \<and> e = Some io_EOF)"
      by (auto simp: Read_output_def Let_def word_gt_0 split: if_splits)
    with b show ?thesis by (auto intro: pos_signed)
  qed
qed

lemma Read_pass_cases:
  "Read_pass eng rd dr bytes = Return (Inr (n, e)) dr' \<Longrightarrow>
     (n = 0 \<and> paranoid dr \<and> e \<noteq> None \<and> snd (fst (rd (src dr) (64 * 1024))) = e) \<or>
     (\<exists>dr1 err. Read_output eng dr1 bytes err = Return (Inr (n, e)) dr')"
  by (auto simp: Read_pass_def Let_def split: prod.splits sum.splits if_splits)

lemma outcome_pass:
  assumes "Read_pass eng rd dr bytes = Return r dr'" and "length bytes < 2 ^ 63"
  shows "outcome rd dr (r, dr')"
proof (cases r)
  case (Inl f)
  then show ?thesis by (simp add: outcome_def)
next
  case (Inr p)
  obtain n e where p: "p = (n, e)" by (cases p)
  from assms(1) Inr p have run: "Read_pass eng rd dr bytes = Return (Inr (n, e)) dr'" by simp
  from Read_pass_cases [OF run]
  consider
    (stream) "n = 0" "paranoid dr" "e \<noteq> None" "snd (fst (rd (src dr) (64 * 1024))) = e"
  | (engine) dr1 err where "Read_output eng dr1 bytes err = Return (Inr (n, e)) dr'"
    by blast
  then have "(0 <s n \<and> e = None) \<or> (n = 0 \<and> e = Some io_EOF) \<or>
        (n = 0 \<and> paranoid dr \<and> e \<noteq> None \<and>
         (\<exists>k. snd (fst (rd (src_after rd k (src dr)) (64 * 1024))) = e))"
  proof cases
    case stream
    have "snd (fst (rd (src_after rd 0 (src dr)) (64 * 1024))) = e"
      using stream(4) by simp
    then have "\<exists>k. snd (fst (rd (src_after rd k (src dr)) (64 * 1024))) = e" by (rule exI)
    with stream show ?thesis by simp
  next
    case engine
    from Read_output_Return [OF engine assms(2)] show ?thesis by blast
  qed
  then show ?thesis unfolding outcome_def Inr p by simp
qed

lemma outcome_shift:
  assumes "Read_pass eng rd dr bytes = Again dr1" and "outcome rd dr1 y"
  shows "outcome rd dr y"
proof -
  from Read_pass_Again [OF assms(1)]
  have s: "src dr1 = snd (rd (src dr) (64 * 1024))" and p: "paranoid dr1 = paranoid dr" by auto
  have shift: "\<And>k. src_after rd k (src dr1) = src_after rd (Suc k) (src dr)" by (simp add: s)
  show ?thesis
  proof (cases "fst y")
    case (Inl f)
    then show ?thesis by (simp add: outcome_def)
  next
    case (Inr q)
    obtain n e where q: "q = (n, e)" by (cases q)
    from assms(2) Inr q
    have "(0 <s n \<and> e = None) \<or> (n = 0 \<and> e = Some io_EOF) \<or>
          (n = 0 \<and> paranoid dr1 \<and> e \<noteq> None \<and>
           (\<exists>k. snd (fst (rd (src_after rd k (src dr1)) (64 * 1024))) = e))"
      by (simp add: outcome_def)
    then have "(0 <s n \<and> e = None) \<or> (n = 0 \<and> e = Some io_EOF) \<or>
          (n = 0 \<and> paranoid dr \<and> e \<noteq> None \<and>
           (\<exists>k. snd (fst (rd (src_after rd k (src dr)) (64 * 1024))) = e))"
      unfolding shift p by blast
    with Inr q show ?thesis by (simp add: outcome_def)
  qed
qed

lemma Read_outcome:
  assumes run: "DecoderReader_Read eng rd dr bytes = Some y" and len: "length bytes < 2 ^ 63"
  shows "outcome rd dr y"
proof -
  have "length bytes < 2 ^ 63 \<longrightarrow> outcome rd dr y"
  proof (rule DecoderReader_Read.raw_induct
        [where P = "\<lambda>eng rd dr bytes y. length bytes < 2 ^ 63 \<longrightarrow> outcome rd dr y",
         OF _ run])
    fix loop :: "'a engine \<Rightarrow> 'b reader \<Rightarrow> ('a, 'b) DecoderReader \<Rightarrow> byte list \<Rightarrow>
       ((fault + go_int \<times> go_error option) \<times> ('a, 'b) DecoderReader) option"
    fix eng rd dr bytes y
    assume IH: "\<And>eng rd dr bytes y. loop eng rd dr bytes = Some y \<Longrightarrow>
       length bytes < 2 ^ 63 \<longrightarrow> outcome rd dr y"
    assume step: "(case Read_pass eng rd dr bytes of
          Return r dr' \<Rightarrow> Some (r, dr')
        | Again dr' \<Rightarrow> loop eng rd dr' bytes) = Some y"
    show "length bytes < 2 ^ 63 \<longrightarrow> outcome rd dr y"
    proof
      assume len: "length bytes < 2 ^ 63"
      show "outcome rd dr y"
      proof (cases "Read_pass eng rd dr bytes")
        case (Return r st)
        with step have y: "y = (r, st)" by simp
        from outcome_pass [OF Return len] y show ?thesis by simp
      next
        case (Again st)
        with step have "loop eng rd st bytes = Some y" by simp
        from IH [OF this] len have "outcome rd st y" by simp
        with Again show ?thesis by (rule outcome_shift)
      qed
    qed
  qed
  with len show ?thesis by simp
qed

lemma ok_run:
  "DecoderReader_Read scripted replay dr_ok [0, 0, 0, 0] =
     Some (Inr (4, None),
       \<lparr>decoder = \<lparr>read_script = [], decode_script = [], fed = [[1, 2, 3]], closes = 0,
           format = (44100, 2, 208)\<rparr>,
        src = [], fps = 44100, channels = 2, paranoid = False\<rparr>)"
  by (rule Read_Return) (simp add: run_defs dr_ok_def)

lemma tail_run:
  "DecoderReader_Read scripted replay dr_tail [0, 0, 0, 0] =
     Some (Inr (0, Some io_EOF),
       \<lparr>decoder = \<lparr>read_script = [], decode_script = [], fed = [], closes = 1,
           format = (44100, 2, 208)\<rparr>,
        src = [], fps = 44100, channels = 2, paranoid = False\<rparr>)"
  by (rule Read_Return) (simp add: run_defs dr_tail_def)

lemma failfast_run:
  "DecoderReader_Read scripted replay dr_failfast [0, 0, 0, 0] =
     Some (Inr (0, Some (stream_error ''reset'')),
       \<lparr>decoder = \<lparr>read_script = [], decode_script = [], fed = [], closes = 1,
           format = (44100, 2, 208)\<rparr>,
        src = [], fps = 44100, channels = 2, paranoid = True\<rparr>)"
  by (rule Read_Return) (simp add: run_defs dr_failfast_def)

text \<open>
  Claim C1. Whenever \<^verbatim>\<open>DecoderReader.Read\<close> returns, on an output buffer of a length a Go
  slice can have, the result is not \<open>(0, nil)\<close>. It is a positive byte count with a \<^verbatim>\<open>nil\<close>
  error, or a zero count with \<^verbatim>\<open>io.EOF\<close>, the end-of-stream signal, or, in fail-fast mode
  only, a zero count with the error that the input stream reported on one of the reads
  of this call.
\<close>

theorem Read_never_zero_nil:
  assumes "DecoderReader_Read eng rd dr bytes = Some (Inr (n, e), dr')"
    and "length bytes < 2 ^ 63"
  shows "(0 <s n \<and> e = None) \<or> (n = 0 \<and> e = Some io_EOF) \<or>
         (n = 0 \<and> paranoid dr \<and> e \<noteq> None \<and>
          (\<exists>k. snd (fst (rd (src_after rd k (src dr)) (64 * 1024))) = e))"
  using Read_outcome [OF assms] by (simp add: outcome_def)

theorem Read_never_zero_nil_witness:
  "DecoderReader_Read scripted replay dr_ok [0, 0, 0, 0] =
     Some (Inr (4, None),
       \<lparr>decoder = \<lparr>read_script = [], decode_script = [], fed = [[1, 2, 3]], closes = 0,
           format = (44100, 2, 208)\<rparr>,
        src = [], fps = 44100, channels = 2, paranoid = False\<rparr>) \<and>
   DecoderReader_Read scripted replay dr_tail [0, 0, 0, 0] =
     Some (Inr (0, Some io_EOF),
       \<lparr>decoder = \<lparr>read_script = [], decode_script = [], fed = [], closes = 1,
           format = (44100, 2, 208)\<rparr>,
        src = [], fps = 44100, channels = 2, paranoid = False\<rparr>) \<and>
   DecoderReader_Read scripted replay dr_failfast [0, 0, 0, 0] =
     Some (Inr (0, Some (stream_error ''reset'')),
       \<lparr>decoder = \<lparr>read_script = [], decode_script = [], fed = [], closes = 1,
           format = (44100, 2, 208)\<rparr>,
        src = [], fps = 44100, channels = 2, paranoid = True\<rparr>) \<and>
   length [0, 0, 0, 0 :: byte] < 2 ^ 63 \<and> 0 <s (4 :: go_int) \<and> paranoid dr_failfast \<and>
   snd (fst (replay (src_after replay 0 (src dr_failfast)) (64 * 1024))) =
     Some (stream_error ''reset'')"
proof -
  have len: "length [0, 0, 0, 0 :: byte] < 2 ^ 63" by simp
  have p: "paranoid dr_failfast"
    by (simp add: dr_failfast_def Paranoid_def)
  have r: "snd (fst (replay (src_after replay 0 (src dr_failfast)) (64 * 1024))) =
     Some (stream_error ''reset'')"
    by (simp add: dr_failfast_def Paranoid_def Decoder_DecoderReader_def replay_def)
  from Read_never_zero_nil [OF ok_run len] have a: "0 <s (4 :: go_int)" by simp
  from Read_never_zero_nil [OF tail_run len] Read_never_zero_nil [OF failfast_run len]
    ok_run tail_run failfast_run len a p r
  show ?thesis by simp
qed

section \<open>A call that never returns\<close>

lemma stuck_pass:
  assumes "src dr = []" "read_script (decoder dr) = []" "\<not> paranoid dr" "bytes \<noteq> []"
  shows "Read_pass scripted replay dr bytes = Again dr"
  using assms by (simp add: run_defs)

lemma stuck_forever:
  assumes run: "DecoderReader_Read eng rd dr bytes = Some y"
  shows "\<not> stuck eng rd dr bytes"
proof (rule DecoderReader_Read.raw_induct
        [where P = "\<lambda>eng rd dr bytes y. \<not> stuck eng rd dr bytes", OF _ run])
  fix loop :: "script engine \<Rightarrow> (byte list \<times> go_error option) list reader \<Rightarrow>
     (script, (byte list \<times> go_error option) list) DecoderReader \<Rightarrow> byte list \<Rightarrow>
     ((fault + go_int \<times> go_error option) \<times>
      (script, (byte list \<times> go_error option) list) DecoderReader) option"
  fix eng rd dr bytes y
  assume IH: "\<And>eng rd dr bytes y. loop eng rd dr bytes = Some y \<Longrightarrow> \<not> stuck eng rd dr bytes"
  assume step: "(case Read_pass eng rd dr bytes of
        Return r dr' \<Rightarrow> Some (r, dr')
      | Again dr' \<Rightarrow> loop eng rd dr' bytes) = Some y"
  show "\<not> stuck eng rd dr bytes"
  proof
    assume s: "stuck eng rd dr bytes"
    then have "Read_pass eng rd dr bytes = Again dr" by (simp add: stuck_def stuck_pass)
    with step have "loop eng rd dr bytes = Some y" by simp
    from IH [OF this] s show False by simp
  qed
qed

text \<open>
  Claim C6, at the failing input. The session is lenient, the input stream reports end of
  input on every read, and the engine answers every read with \<^verbatim>\<open>MPG123_ERR\<close>, a status
  the \<^verbatim>\<open>switch\<close> has no case for: the end-of-input test is never reached and the call
  does not return.
\<close>

theorem Read_spins_on_engine_error:
  "DecoderReader_Read scripted replay dr_stuck [0, 0, 0, 0] = None"
proof (cases "DecoderReader_Read scripted replay dr_stuck [0, 0, 0, 0]")
  case None
  then show ?thesis .
next
  case (Some y)
  from stuck_forever [OF this] show ?thesis
    by (simp add: stuck_def dr_stuck_def Decoder_DecoderReader_def FormatNone_def Format_def
        scripted_def fresh_def)
qed

text \<open>
  What bounds the loop when the engine never reports a status outside the four handled
  ones: the pass in which the input stream reports end of input returns, in either mode,
  so a stream that reports end of input on its \<open>k\<close>-th read ends the call within
  \<open>k + 1\<close> passes.
\<close>

lemma Read_output_end:
  assumes "\<And>h n. handled (fst (fst (mpg123_read eng h n)))"
  shows "\<exists>r dr'. Read_output eng dr bytes (Some io_EOF) = Return r dr'"
proof (cases "do_mpg123_read eng (decoder dr) bytes (of_nat (length bytes))")
  case (Pair r h')
  show ?thesis
  proof (cases r)
    case (Inl f)
    with Pair show ?thesis by (simp add: Read_output_def)
  next
    case (Inr p)
    obtain msg dn where p: "p = (msg, dn)" by (cases p)
    from Pair Inr p have "bytes \<noteq> []" by (auto simp: do_mpg123_read_def split: if_splits)
    with Pair Inr p have "msg = fst (fst (mpg123_read eng (decoder dr) (of_nat (length bytes))))"
      by (auto simp: do_mpg123_read_def split: if_splits prod.splits)
    with assms have "handled msg" by simp
    with Pair Inr p show ?thesis by (auto simp: Read_output_def handled_def Let_def)
  qed
qed

lemma Read_pass_end:
  assumes "\<And>h n. handled (fst (fst (mpg123_read eng h n)))"
    and "snd (fst (rd (src dr) (64 * 1024))) = Some io_EOF"
  shows "\<exists>r dr'. Read_pass eng rd dr bytes = Return r dr'"
proof -
  obtain data s' where r: "rd (src dr) (64 * 1024) = ((data, Some io_EOF), s')"
    using assms(2) by (cases "rd (src dr) (64 * 1024)") auto
  show ?thesis
  proof (cases "paranoid dr")
    case True
    with r show ?thesis by (simp add: Read_pass_def Let_def)
  next
    case False
    with r have "Read_pass eng rd dr bytes =
        Read_output eng (dr\<lparr>src := s'\<rparr>) bytes (Some io_EOF)"
      by (simp add: Read_pass_def Let_def)
    with Read_output_end [OF assms(1)] show ?thesis by simp
  qed
qed

lemma Read_returns_if_statuses_handled:
  assumes eng: "\<And>h n. handled (fst (fst (mpg123_read eng h n)))"
    and eof: "snd (fst (rd (src_after rd k (src dr)) (64 * 1024))) = Some io_EOF"
  shows "\<exists>y. DecoderReader_Read eng rd dr bytes = Some y"
  using eof
proof (induction k arbitrary: dr)
  case 0
  then have "snd (fst (rd (src dr) (64 * 1024))) = Some io_EOF" by simp
  from Read_pass_end [where rd = rd and dr = dr, OF eng this]
  obtain r dr' where "Read_pass eng rd dr bytes = Return r dr'"
    by blast
  then show ?case by (auto dest: Read_Return)
next
  case (Suc k)
  show ?case
  proof (cases "Read_pass eng rd dr bytes")
    case (Return r dr')
    then show ?thesis by (auto dest: Read_Return)
  next
    case (Again dr')
    from Read_pass_Again [OF Again] Suc.prems
    have e: "snd (fst (rd (src_after rd k (src dr')) (64 * 1024))) = Some io_EOF" by simp
    from Suc.IH [where dr = dr', OF e] Read_Again [OF Again] show ?thesis by simp
  qed
qed

section \<open>Fail-fast mode\<close>

lemma Read_pass_fail_fast:
  assumes "paranoid dr" and "rd (src dr) (64 * 1024) = ((data, Some e), s')"
  shows "Read_pass eng rd dr bytes =
     Return (Inr (0, Some e)) (dr\<lparr>src := s', decoder := snd (mpg123_close eng (decoder dr))\<rparr>)"
  using assms by (simp add: Read_pass_def Nuke_def Close_def Let_def split: prod.splits)



section \<open>The pull decoder\<close>

text \<open>
  Claim C7. On a non-empty buffer, with an engine that stores no more than the buffer
  holds, \<^verbatim>\<open>Decoder.Read\<close> returns the engine's byte count, and with it: the package's
  \<^verbatim>\<open>EOF\<close> value exactly when the engine reports \<^verbatim>\<open>MPG123_DONE\<close> (whatever the count);
  \<^verbatim>\<open>nil\<close> exactly when it reports \<^verbatim>\<open>MPG123_OK\<close>; and for every other status an error made
  of the engine's error string, which is a value different from \<^verbatim>\<open>EOF\<close>.
\<close>

theorem Decoder_Read_status:
  assumes "buf \<noteq> []"
    and "mpg123_read eng h (of_nat (length buf)) = ((st, dn), h')"
    and "unat dn \<le> length buf"
  shows "\<exists>err. Decoder_Read eng h buf = (Inr (dn, err), h') \<and>
           (err = Some EOF \<longleftrightarrow> st = MPG123_DONE) \<and>
           (err = None \<longleftrightarrow> st = MPG123_OK) \<and>
           (st \<noteq> MPG123_OK \<and> st \<noteq> MPG123_DONE \<longrightarrow>
              err = Some (Errorf (''mpg123 error: '' @ mpg123_strerror eng h')))"
  using assms
  by (simp add: Decoder_Read_def do_mpg123_read_def mpg123_error_def strerror_def status_defs)

theorem Decoder_Read_status_witness:
  "[0, 0, 0, 0 :: byte] \<noteq> [] \<and>
   mpg123_read scripted (fresh [(MPG123_DONE, 2)] []) (of_nat (length [0, 0, 0, 0 :: byte])) =
     ((MPG123_DONE, 2), fresh [] []) \<and>
   mpg123_read scripted (fresh [] []) (of_nat (length [0, 0, 0, 0 :: byte])) =
     ((MPG123_ERR, 0), fresh [] []) \<and>
   unat (2 :: size_t) \<le> length [0, 0, 0, 0 :: byte] \<and>
   Decoder_Read scripted (fresh [(MPG123_DONE, 2)] []) [0, 0, 0, 0] =
     (Inr (2, Some EOF), fresh [] []) \<and>
   Decoder_Read scripted (fresh [] []) [0, 0, 0, 0] =
     (Inr (0, Some (Errorf ''mpg123 error: scripted'')), fresh [] [])"
proof -
  have a: "[0, 0, 0, 0 :: byte] \<noteq> []" by simp
  have b: "mpg123_read scripted (fresh [(MPG123_DONE, 2)] [])
      (of_nat (length [0, 0, 0, 0 :: byte])) = ((MPG123_DONE, 2), fresh [] [])"
    by (simp add: scripted_def fresh_def)
  have b': "mpg123_read scripted (fresh [] [])
      (of_nat (length [0, 0, 0, 0 :: byte])) = ((MPG123_ERR, 0), fresh [] [])"
    by (simp add: scripted_def fresh_def)
  have c: "unat (2 :: size_t) \<le> length [0, 0, 0, 0 :: byte]" by simp
  have c': "unat (0 :: size_t) \<le> length [0, 0, 0, 0 :: byte]" by simp
  have s: "mpg123_strerror scripted (fresh [] []) = ''scripted''" by (simp add: scripted_def)
  from Decoder_Read_status [OF a b c] have
    "Decoder_Read scripted (fresh [(MPG123_DONE, 2)] []) [0, 0, 0, 0] =
       (Inr (2, Some EOF), fresh [] [])"
    by auto
  moreover from Decoder_Read_status [OF a b' c'] s have
    "Decoder_Read scripted (fresh [] []) [0, 0, 0, 0] =
       (Inr (0, Some (Errorf ''mpg123 error: scripted'')), fresh [] [])"
    by (auto simp: status_defs)
  ultimately show ?thesis using a b b' c by simp
qed

section \<open>Seeking\<close>

text \<open>
  Claim C10. \<^verbatim>\<open>Decoder.Seek\<close> returns a \<^verbatim>\<open>nil\<close> error for every offset and whence, and
  its position is whatever \<^verbatim>\<open>mpg123_seek\<close> returned, a negative error code included:
  the value is not inspected.
\<close>

theorem Seek_never_fails:
  "Seek eng h offset whence =
     ((fst (mpg123_seek eng h offset (ucast whence)), None),
      snd (mpg123_seek eng h offset (ucast whence)))"
  by (simp add: Seek_def Let_def split: prod.splits)

section \<open>Bytes that arrive together with end of input\<close>

text \<open>
  With a \<^verbatim>\<open>nil\<close> error the bytes read are fed, and whatever status the feed has, the
  pass goes on to ask the engine for output. With an error, in lenient mode, the pass goes
  on with the engine untouched, whatever bytes came with the error.
\<close>

lemma Read_pass_feeds:
  assumes "rd (src dr) (64 * 1024) = ((data, None), s')"
    and "data \<noteq> []" and "length data \<le> 64 * 1024"
    and "mpg123_feed eng (decoder dr) data = (st, h')"
  shows "Read_pass eng rd dr bytes =
     Read_output eng (dr\<lparr>src := s', decoder := h'\<rparr>) bytes
       (if st \<noteq> MPG123_OK then Some (mpg123_error eng h') else None)"
  using assms by (simp add: Read_pass_def Feed_def Let_def)

lemma Read_pass_skips_feed:
  assumes "rd (src dr) (64 * 1024) = ((data, Some e), s')" and "\<not> paranoid dr"
  shows "Read_pass eng rd dr bytes = Read_output eng (dr\<lparr>src := s'\<rparr>) bytes (Some e)"
  using assms by (simp add: Read_pass_def Let_def)

text \<open>
  Claim C4, at the failing input. The input stream returns three bytes together with
  \<^verbatim>\<open>io.EOF\<close>, as the \<^verbatim>\<open>io.Reader\<close> contract allows. \<^verbatim>\<open>Feed\<close> is only called when the error
  is \<^verbatim>\<open>nil\<close>, so the engine is never fed them (its record of feeds stays empty) and the
  call ends the stream.
\<close>

theorem Read_drops_bytes_at_end_of_input:
  "DecoderReader_Read scripted replay dr_tail [0, 0, 0, 0] =
     Some (Inr (0, Some io_EOF),
       \<lparr>decoder = \<lparr>read_script = [], decode_script = [], fed = [], closes = 1,
           format = (44100, 2, 208)\<rparr>,
        src = [], fps = 44100, channels = 2, paranoid = False\<rparr>)"
  by (rule Read_Return) (simp add: run_defs dr_tail_def)

section \<open>Frames\<close>

lemmas frame_defs =
  DecodeSamples_def ReadAudioFrames_def framesToBytes_def GetEncodingBitsPerSample_def
  go_quo_def GetFormat_def do_mpg123_read_def scripted_def fresh_def mono16_def status_defs

lemma DecodeSamples_end_of_stream:
  "ReadAudioFrames eng h samples audio = (Inr (rLen, Some EOF), h') \<Longrightarrow>
     DecodeSamples eng h samples audio = (Inr (0, None), h')"
  by (simp add: DecodeSamples_def)

text \<open>
  Claim C9, at the failing input. The negotiated format is mono, 16 bit: a frame is two
  bytes, and two frames are four bytes. \<^verbatim>\<open>ReadAudioFrames\<close> decodes those four bytes, that
  is two whole frames, and \<^verbatim>\<open>DecodeSamples\<close> returns one, the byte count divided by the
  constant 4.
\<close>

theorem DecodeSamples_mono_halves:
  "framesToBytes scripted 0xD0 2 1 = 4 \<and>
   ReadAudioFrames scripted mono16 2 [0, 0, 0, 0] =
     (Inr (4, None), mono16\<lparr>read_script := []\<rparr>) \<and>
   DecodeSamples scripted mono16 2 [0, 0, 0, 0] =
     (Inr (1, None), mono16\<lparr>read_script := []\<rparr>)"
  by (simp add: frame_defs)

text \<open>
  What \<^verbatim>\<open>ReadAudioFrames\<close> asks the engine for: the division by 8 undoes the
  multiplication by 8 of \<^verbatim>\<open>GetEncodingBitsPerSample\<close> (a C \<^verbatim>\<open>int\<close> times 8 cannot overflow
  64 bits), so the size is the encoding's byte width times frames times channels, in
  64-bit arithmetic.
\<close>

lemma sdiv_8: "(8 * k) sdiv 8 = (k :: int)"
proof -
  have "(8 * k) sdiv 8 = sgn (8 * k) * sgn (8 :: int) * (\<bar>8 * k\<bar> div \<bar>8\<bar>)"
    by (rule signed_divide_int_def)
  also have "\<dots> = sgn k * \<bar>k\<bar>" by (simp add: sgn_mult abs_mult)
  also have "\<dots> = k" by (rule sgn_mult_abs)
  finally show ?thesis .
qed

lemma sint_8_scast: "sint (8 * (scast (w :: 32 word) :: 64 word)) = 8 * sint w"
proof -
  have lo: "- (2 ^ 31) \<le> sint w" using sint_ge [of w] by simp
  have hi: "sint w < 2 ^ 31" using sint_lt [of w] by simp
  have "8 * (scast w :: 64 word) = word_of_int (8 * sint w)"
    by simp
  then have "sint (8 * (scast w :: 64 word)) = signed_take_bit (LENGTH(64) - 1) (8 * sint w)"
    by (simp only: sint_sbintrunc')
  also have "\<dots> = signed_take_bit 63 (8 * sint w)" by simp
  also have "\<dots> = 8 * sint w"
  proof (rule signed_take_bit_int_eq_self)
    from lo show "- (2 ^ 63) \<le> 8 * sint w" by simp
    from hi show "8 * sint w < 2 ^ 63" by simp
  qed
  finally show ?thesis .
qed

lemma bytesPerSample_encsize:
  "go_quo (GetEncodingBitsPerSample eng enc) 8 = scast (mpg123_encsize eng (ucast enc))"
  unfolding go_quo_def GetEncodingBitsPerSample_def
  by (simp only: sint_8_scast) (simp add: sdiv_8)

lemma framesToBytes_exact:
  "framesToBytes eng enc frames chans = scast (mpg123_encsize eng (ucast enc)) * frames * chans"
  by (simp add: framesToBytes_def bytesPerSample_encsize)

text \<open>
  Claim C3 as stated fails: no length check precedes the native read. With a 16-bit
  stereo format, ten frames are 40 bytes; on a buffer of four bytes the engine is asked
  for 40, stores 40, and has written outside the buffer.
\<close>

theorem ReadAudioFrames_unguarded:
  "framesToBytes scripted 0xD0 10 2 = 40 \<and>
   ReadAudioFrames scripted (fresh [(MPG123_OK, 1000)] []) 10 [0, 0, 0, 0] =
     (Inl native_out_of_bounds, fresh [] [])"
  by (simp add: frame_defs)

text \<open>
  Claim C3, amended. \<^verbatim>\<open>ReadAudioFrames\<close> asks the engine for exactly byte width times
  frames times channels bytes of the current format (64-bit arithmetic). It checks
  nothing but that the buffer is not empty; when the caller's buffer holds that many
  bytes, and the engine stores no more than it was asked for, the call stays within the
  buffer and returns the engine's count.
\<close>

theorem ReadAudioFrames_in_bounds:
  assumes "buf \<noteq> []"
    and "mpg123_getformat eng h = ((cRate, cChans, cEnc), h1)"
    and "n = scast (mpg123_encsize eng (ucast (scast cEnc :: go_int))) * frames * scast cChans"
    and "mpg123_read eng h1 n = ((st, dn), h2)"
    and "unat dn \<le> unat n"
    and "unat n \<le> length buf"
  shows "\<exists>err. ReadAudioFrames eng h frames buf = (Inr (dn, err), h2)"
  using assms
  by (simp add: ReadAudioFrames_def GetFormat_def framesToBytes_exact do_mpg123_read_def)

theorem ReadAudioFrames_in_bounds_witness:
  "[0, 0, 0, 0 :: byte] \<noteq> [] \<and>
   mpg123_getformat scripted (fresh [(MPG123_OK, 1000)] []) =
     ((44100, 2, 0xD0), fresh [(MPG123_OK, 1000)] []) \<and>
   (4 :: go_int) = scast (mpg123_encsize scripted (ucast (scast (0xD0 :: c_int) :: go_int))) * 1 *
      scast (2 :: c_int) \<and>
   mpg123_read scripted (fresh [(MPG123_OK, 1000)] []) 4 = ((MPG123_OK, 4), fresh [] []) \<and>
   unat (4 :: size_t) \<le> unat (4 :: size_t) \<and>
   unat (4 :: size_t) \<le> length [0, 0, 0, 0 :: byte] \<and>
   ReadAudioFrames scripted (fresh [(MPG123_OK, 1000)] []) 1 [0, 0, 0, 0] =
     (Inr (4, None), fresh [] [])"
proof -
  have a: "[0, 0, 0, 0 :: byte] \<noteq> []" by simp
  have b: "mpg123_getformat scripted (fresh [(MPG123_OK, 1000)] []) =
     ((44100, 2, 0xD0), fresh [(MPG123_OK, 1000)] [])"
    by (simp add: scripted_def fresh_def)
  have c: "(4 :: go_int) =
     scast (mpg123_encsize scripted (ucast (scast (0xD0 :: c_int) :: go_int))) * 1 *
       scast (2 :: c_int)"
    by (simp add: scripted_def)
  have d: "mpg123_read scripted (fresh [(MPG123_OK, 1000)] []) 4 =
     ((MPG123_OK, 4), fresh [] [])"
    by (simp add: scripted_def fresh_def)
  have e: "unat (4 :: size_t) \<le> unat (4 :: size_t)" by simp
  have f: "unat (4 :: size_t) \<le> length [0, 0, 0, 0 :: byte]" by simp
  have g: "ReadAudioFrames scripted (fresh [(MPG123_OK, 1000)] []) 1 [0, 0, 0, 0] =
     (Inr (4, None), fresh [] [])"
    by (simp add: frame_defs)
  from ReadAudioFrames_in_bounds [OF a b c d e f] g a b c d show ?thesis by simp
qed

section \<open>One-shot decoding and a hard error\<close>

lemma Decode_drain_step:
  "mpg123_decode eng h None (of_nat OUT_MAX_BUFFER_SIZE) = ((ret, w), h') \<Longrightarrow>
   length w \<le> OUT_MAX_BUFFER_SIZE \<Longrightarrow> ret \<noteq> MPG123_ERR \<Longrightarrow> ret \<noteq> MPG123_NEED_MORE \<Longrightarrow>
   Decode_drain eng h b = Decode_drain eng h' (write_out b w)"
  by (subst Decode_drain.simps) simp

lemma Decode_drain_stop:
  "mpg123_decode eng h None (of_nat OUT_MAX_BUFFER_SIZE) = ((ret, w), h') \<Longrightarrow>
   length w \<le> OUT_MAX_BUFFER_SIZE \<Longrightarrow> ret = MPG123_ERR \<or> ret = MPG123_NEED_MORE \<Longrightarrow>
   Decode_drain eng h b = Some (Inr (ret, b), h')"
  by (subst Decode_drain.simps) simp

lemma scripted_error: "mpg123_error scripted h = Errorf ''mpg123 error: scripted''"
  by (simp add: mpg123_error_def strerror_def scripted_def)

text \<open>
  A run: the first decode yields the bytes 1, 2, the drain yields 3 and then meets
  \<^verbatim>\<open>MPG123_ERR\<close>. At that point the buffer \<^verbatim>\<open>b\<close> holds 1, 2, 3.
\<close>

lemma drain_123:
  "Decode_drain scripted (fresh [] [(MPG123_OK, [3]), (MPG123_ERR, [])]) [1, 2] =
     Some (Inr (MPG123_ERR, [1, 2, 3]), fresh [] [])"
proof -
  have "Decode_drain scripted (fresh [] [(MPG123_OK, [3]), (MPG123_ERR, [])]) [1, 2] =
     Decode_drain scripted (fresh [] [(MPG123_ERR, [])]) (write_out [1, 2] [3])"
    by (rule Decode_drain_step [where ret = MPG123_OK])
       (simp_all add: scripted_def fresh_def OUT_MAX_BUFFER_SIZE_def status_defs)
  also have "\<dots> = Some (Inr (MPG123_ERR, write_out [1, 2] [3]), fresh [] [])"
    by (rule Decode_drain_stop [where w = "[]"])
       (simp_all add: scripted_def fresh_def OUT_MAX_BUFFER_SIZE_def status_defs)
  also have "write_out [1, 2] [3] = [1, 2, 3]" by (simp add: write_out_def word_sless_alt)
  finally show ?thesis .
qed

lemma Decode_123:
  "Decode scripted (fresh [] [(MPG123_OK, [1, 2]), (MPG123_OK, [3]), (MPG123_ERR, [])]) [7] =
     Some (Inr ([], Some (Errorf ''mpg123 error: scripted'')), fresh [] [])"
proof -
  have w: "write_out [] [1, 2] = [1, 2]" by (simp add: write_out_def word_sless_alt)
  have rest: "Decode_rest scripted (fresh [] [(MPG123_OK, [3]), (MPG123_ERR, [])]) [1, 2] =
     Some (Inr ([], Some (Errorf ''mpg123 error: scripted'')), fresh [] [])"
    by (simp add: Decode_rest_def w drain_123 scripted_error)
  have first: "mpg123_decode scripted
      (fresh [] [(MPG123_OK, [1, 2]), (MPG123_OK, [3]), (MPG123_ERR, [])]) (Some [7])
      (of_nat OUT_MAX_BUFFER_SIZE) =
        ((MPG123_OK, [1, 2]), fresh [] [(MPG123_OK, [3]), (MPG123_ERR, [])])"
    by (simp add: scripted_def fresh_def OUT_MAX_BUFFER_SIZE_def)
  show ?thesis
    by (simp add: Decode_def first rest) (simp add: OUT_MAX_BUFFER_SIZE_def status_defs)
qed

text \<open>
  Claim C5 as stated fails: in the run above the drain had accumulated the bytes 1, 2, 3
  when the engine reported the hard error, and \<^verbatim>\<open>Decode\<close> returns \<^verbatim>\<open>nil\<close> with the error.
\<close>

theorem Decode_discards_accumulated:
  "Decode_drain scripted (fresh [] [(MPG123_OK, [3]), (MPG123_ERR, [])]) [1, 2] =
     Some (Inr (MPG123_ERR, [1, 2, 3]), fresh [] []) \<and>
   Decode scripted (fresh [] [(MPG123_OK, [1, 2]), (MPG123_OK, [3]), (MPG123_ERR, [])]) [7] =
     Some (Inr ([], Some (Errorf ''mpg123 error: scripted'')), fresh [] [])"
  using drain_123 Decode_123 by simp

lemma Decode_error_is_nil:
  assumes "Decode eng h buf = Some (Inr (bs, Some e), h')"
  shows "bs = [] \<and> e = mpg123_error eng h'"
  using assms
  by (auto simp: Decode_def Decode_rest_def split: if_splits prod.splits option.splits sum.splits)

text \<open>
  Claim C5, amended. When, after a first decode that is neither \<^verbatim>\<open>MPG123_ERR\<close> nor
  \<^verbatim>\<open>MPG123_NEED_MORE\<close>, the drain loop of \<^verbatim>\<open>Decode\<close> meets a hard engine error, having
  accumulated the bytes \<open>b\<close>, those bytes are discarded: \<^verbatim>\<open>Decode\<close> returns \<^verbatim>\<open>nil\<close> together
  with the error made of the engine's error string.
\<close>

theorem Decode_hard_error_in_drain:
  assumes "buf \<noteq> []"
    and "mpg123_decode eng h (Some buf) (of_nat OUT_MAX_BUFFER_SIZE) = ((ret, w), h1)"
    and "length w \<le> OUT_MAX_BUFFER_SIZE"
    and "ret \<noteq> MPG123_ERR" and "ret \<noteq> MPG123_NEED_MORE"
    and "Decode_drain eng (if ret = MPG123_NEW_FORMAT then snd (mpg123_getformat eng h1) else h1)
           (write_out [] w) = Some (Inr (MPG123_ERR, b), h3)"
  shows "Decode eng h buf = Some (Inr ([], Some (mpg123_error eng h3)), h3)"
  using assms by (auto simp: Decode_def Decode_rest_def)

theorem Decode_hard_error_in_drain_witness:
  "[7 :: byte] \<noteq> [] \<and>
   mpg123_decode scripted
     (fresh [] [(MPG123_OK, [1, 2]), (MPG123_OK, [3]), (MPG123_ERR, [])]) (Some [7])
     (of_nat OUT_MAX_BUFFER_SIZE) =
       ((MPG123_OK, [1, 2]), fresh [] [(MPG123_OK, [3]), (MPG123_ERR, [])]) \<and>
   length [1, 2 :: byte] \<le> OUT_MAX_BUFFER_SIZE \<and>
   MPG123_OK \<noteq> MPG123_ERR \<and> MPG123_OK \<noteq> MPG123_NEED_MORE \<and>
   Decode_drain scripted (fresh [] [(MPG123_OK, [3]), (MPG123_ERR, [])]) (write_out [] [1, 2]) =
     Some (Inr (MPG123_ERR, [1, 2, 3]), fresh [] []) \<and>
   Decode scripted (fresh [] [(MPG123_OK, [1, 2]), (MPG123_OK, [3]), (MPG123_ERR, [])]) [7] =
     Some (Inr ([], Some (Errorf ''mpg123 error: scripted'')), fresh [] [])"
proof -
  have a: "[7 :: byte] \<noteq> []" by simp
  have first: "mpg123_decode scripted
      (fresh [] [(MPG123_OK, [1, 2]), (MPG123_OK, [3]), (MPG123_ERR, [])]) (Some [7])
      (of_nat OUT_MAX_BUFFER_SIZE) =
        ((MPG123_OK, [1, 2]), fresh [] [(MPG123_OK, [3]), (MPG123_ERR, [])])"
    by (simp add: scripted_def fresh_def OUT_MAX_BUFFER_SIZE_def)
  have l: "length [1, 2 :: byte] \<le> OUT_MAX_BUFFER_SIZE" by (simp add: OUT_MAX_BUFFER_SIZE_def)
  have e: "MPG123_OK \<noteq> MPG123_ERR" and m: "MPG123_OK \<noteq> MPG123_NEED_MORE"
    by (simp_all add: status_defs)
  have w: "write_out [] [1, 2] = [1, 2]" by (simp add: write_out_def word_sless_alt)
  have d: "Decode_drain scripted (fresh [] [(MPG123_OK, [3]), (MPG123_ERR, [])])
      (write_out [] [1, 2]) = Some (Inr (MPG123_ERR, [1, 2, 3]), fresh [] [])"
    by (simp add: w drain_123)
  have d': "Decode_drain scripted
      (if MPG123_OK = MPG123_NEW_FORMAT
       then snd (mpg123_getformat scripted (fresh [] [(MPG123_OK, [3]), (MPG123_ERR, [])]))
       else fresh [] [(MPG123_OK, [3]), (MPG123_ERR, [])])
      (write_out [] [1, 2]) = Some (Inr (MPG123_ERR, [1, 2, 3]), fresh [] [])"
    using d by (simp add: status_defs)
  from Decode_hard_error_in_drain [OF a first l e m d'] a first l e m d
  show ?thesis by (simp add: scripted_error)
qed

section \<open>Reading again after the end of the stream\<close>

text \<open>A call that ends the stream leaves the decoder closed.\<close>

lemma Nuke_decoder: "decoder (Nuke eng dr) = snd (mpg123_close eng (decoder dr))"
  by (simp add: Nuke_def Close_def split: prod.splits)

lemma Read_output_eof_nuked:
  "Read_output eng dr bytes err = Return (Inr (n, Some io_EOF)) dr' \<Longrightarrow>
     \<exists>dr1. dr' = Nuke eng dr1"
  by (auto simp: Read_output_def Let_def split: prod.splits sum.splits if_splits)

lemma Read_pass_eof_nuked:
  "Read_pass eng rd dr bytes = Return (Inr (n, Some io_EOF)) dr' \<Longrightarrow>
     \<exists>dr1. dr' = Nuke eng dr1"
  by (auto simp: Read_pass_def Let_def dest: Read_output_eof_nuked
      split: prod.splits sum.splits if_splits)

lemma Read_pass_eof_closed:
  assumes "Read_pass eng rd dr bytes = Return (Inr (n, Some io_EOF)) dr'"
  shows "\<exists>h. decoder dr' = snd (mpg123_close eng h)"
proof -
  from Read_pass_eof_nuked [OF assms] obtain dr1 where "dr' = Nuke eng dr1" by blast
  then have "decoder dr' = snd (mpg123_close eng (decoder dr1))" by (simp add: Nuke_decoder)
  then show ?thesis by (rule exI)
qed

lemma Read_eof_closed:
  assumes run: "DecoderReader_Read eng rd dr bytes = Some y"
  shows "\<forall>n dr'. y = (Inr (n, Some io_EOF), dr') \<longrightarrow> (\<exists>h. decoder dr' = snd (mpg123_close eng h))"
proof (rule DecoderReader_Read.raw_induct
        [where P = "\<lambda>eng rd dr bytes y. \<forall>n dr'. y = (Inr (n, Some io_EOF), dr') \<longrightarrow>
            (\<exists>h. decoder dr' = snd (mpg123_close eng h))", OF _ run])
  fix loop :: "'a engine \<Rightarrow> 'b reader \<Rightarrow> ('a, 'b) DecoderReader \<Rightarrow> byte list \<Rightarrow>
     ((fault + go_int \<times> go_error option) \<times> ('a, 'b) DecoderReader) option"
  fix eng rd dr bytes y
  assume IH: "\<And>eng rd dr bytes y. loop eng rd dr bytes = Some y \<Longrightarrow>
     \<forall>n dr'. y = (Inr (n, Some io_EOF), dr') \<longrightarrow> (\<exists>h. decoder dr' = snd (mpg123_close eng h))"
  assume step: "(case Read_pass eng rd dr bytes of
        Return r dr' \<Rightarrow> Some (r, dr')
      | Again dr' \<Rightarrow> loop eng rd dr' bytes) = Some y"
  show "\<forall>n dr'. y = (Inr (n, Some io_EOF), dr') \<longrightarrow> (\<exists>h. decoder dr' = snd (mpg123_close eng h))"
  proof (cases "Read_pass eng rd dr bytes")
    case (Return r st)
    with step have "y = (r, st)" by simp
    with Return show ?thesis by (auto dest: Read_pass_eof_closed)
  next
    case (Again st)
    with step have "loop eng rd st bytes = Some y" by simp
    then show ?thesis by (rule IH)
  qed
qed

text \<open>A call that returns has read the input stream at least once.\<close>

lemma Read_reads_stream:
  assumes run: "DecoderReader_Read eng rd dr bytes = Some y"
  shows "\<exists>k. src (snd y) = src_after rd (Suc k) (src dr)"
proof (rule DecoderReader_Read.raw_induct
        [where P = "\<lambda>eng rd dr bytes y. \<exists>k. src (snd y) = src_after rd (Suc k) (src dr)",
         OF _ run])
  fix loop :: "'a engine \<Rightarrow> 'b reader \<Rightarrow> ('a, 'b) DecoderReader \<Rightarrow> byte list \<Rightarrow>
     ((fault + go_int \<times> go_error option) \<times> ('a, 'b) DecoderReader) option"
  fix eng rd dr bytes y
  assume IH: "\<And>eng rd dr bytes y. loop eng rd dr bytes = Some y \<Longrightarrow>
     \<exists>k. src (snd y) = src_after rd (Suc k) (src dr)"
  assume step: "(case Read_pass eng rd dr bytes of
        Return r dr' \<Rightarrow> Some (r, dr')
      | Again dr' \<Rightarrow> loop eng rd dr' bytes) = Some y"
  show "\<exists>k. src (snd y) = src_after rd (Suc k) (src dr)"
  proof (cases "Read_pass eng rd dr bytes")
    case (Return r st)
    with step have "y = (r, st)" by simp
    with Read_pass_Return_src [OF Return] have "src (snd y) = src_after rd (Suc 0) (src dr)"
      by simp
    then show ?thesis by (rule exI)
  next
    case (Again st)
    with step have "loop eng rd st bytes = Some y" by simp
    from IH [OF this] obtain k where "src (snd y) = src_after rd (Suc k) (src st)" by blast
    with Read_pass_Again [OF Again] have "src (snd y) = src_after rd (Suc (Suc k)) (src dr)"
      by simp
    then show ?thesis by (rule exI)
  qed
qed

text \<open>
  The two sessions on the engine \<open>closing\<close>: each ends the stream on its first call. On
  the second call the lenient one is asked for output on its closed handle for ever.
\<close>

lemma closed_stuck_pass:
  assumes "src dr = []" "closes (decoder dr) \<noteq> 0" "\<not> paranoid dr" "bytes \<noteq> []"
  shows "Read_pass closing replay dr bytes = Again dr"
  using assms by (simp add: closing_defs)

lemma closed_stuck_forever:
  assumes run: "DecoderReader_Read eng rd dr bytes = Some y"
  shows "\<not> closed_stuck eng rd dr bytes"
proof (rule DecoderReader_Read.raw_induct
        [where P = "\<lambda>eng rd dr bytes y. \<not> closed_stuck eng rd dr bytes", OF _ run])
  fix loop :: "script engine \<Rightarrow> (byte list \<times> go_error option) list reader \<Rightarrow>
     (script, (byte list \<times> go_error option) list) DecoderReader \<Rightarrow> byte list \<Rightarrow>
     ((fault + go_int \<times> go_error option) \<times>
      (script, (byte list \<times> go_error option) list) DecoderReader) option"
  fix eng rd dr bytes y
  assume IH: "\<And>eng rd dr bytes y. loop eng rd dr bytes = Some y \<Longrightarrow>
     \<not> closed_stuck eng rd dr bytes"
  assume step: "(case Read_pass eng rd dr bytes of
        Return r dr' \<Rightarrow> Some (r, dr')
      | Again dr' \<Rightarrow> loop eng rd dr' bytes) = Some y"
  show "\<not> closed_stuck eng rd dr bytes"
  proof
    assume s: "closed_stuck eng rd dr bytes"
    then have "Read_pass eng rd dr bytes = Again dr"
      by (simp add: closed_stuck_def closed_stuck_pass)
    with step have "loop eng rd dr bytes = Some y" by simp
    from IH [OF this] s show False by simp
  qed
qed

lemma lenient_end_first:
  "DecoderReader_Read closing replay dr_lenient_end [0, 0, 0, 0] =
     Some (Inr (0, Some io_EOF), dr_lenient_end1)"
  by (rule Read_Return) (simp add: closing_defs dr_lenient_end_def dr_lenient_end1_def)

lemma lenient_end_second:
  "DecoderReader_Read closing replay dr_lenient_end1 [0, 0, 0, 0] = None"
proof (cases "DecoderReader_Read closing replay dr_lenient_end1 [0, 0, 0, 0]")
  case None
  then show ?thesis .
next
  case (Some y)
  from closed_stuck_forever [OF this] show ?thesis
    by (simp add: closed_stuck_def dr_lenient_end1_def)
qed

lemma failfast_end_first:
  "DecoderReader_Read closing replay dr_failfast_end [0, 0, 0, 0] =
     Some (Inr (0, Some io_EOF), dr_failfast_end1)"
  by (rule Read_Return) (simp add: closing_defs dr_failfast_end_def dr_failfast_end1_def)

lemma failfast_end_second:
  "DecoderReader_Read closing replay dr_failfast_end1 [0, 0, 0, 0] =
     Some (Inr (0, Some io_EOF), dr_failfast_end2)"
  by (rule Read_Return) (simp add: closing_defs dr_failfast_end1_def dr_failfast_end2_def)

text \<open>
  Claim C2 as stated fails: the struct has no terminal flag and \<^verbatim>\<open>Read\<close> starts with the
  loop. After the end of the stream, the second call of the lenient session reads the
  input stream, asks the closed engine, and never returns; the second call of the
  fail-fast session returns the end of the stream, but by going through the loop: it has
  taken another result from the input stream and closed the decoder a second time.
\<close>

theorem Read_after_end_of_stream_reenters:
  "DecoderReader_Read closing replay dr_lenient_end [0, 0, 0, 0] =
     Some (Inr (0, Some io_EOF), dr_lenient_end1) \<and>
   DecoderReader_Read closing replay dr_lenient_end1 [0, 0, 0, 0] = None \<and>
   DecoderReader_Read closing replay dr_failfast_end [0, 0, 0, 0] =
     Some (Inr (0, Some io_EOF), dr_failfast_end1) \<and>
   DecoderReader_Read closing replay dr_failfast_end1 [0, 0, 0, 0] =
     Some (Inr (0, Some io_EOF), dr_failfast_end2) \<and>
   src dr_failfast_end1 \<noteq> src dr_failfast_end2 \<and>
   closes (decoder dr_failfast_end1) = 1 \<and> closes (decoder dr_failfast_end2) = 2"
  using lenient_end_first lenient_end_second failfast_end_first failfast_end_second
  by (simp add: dr_failfast_end1_def dr_failfast_end2_def)

text \<open>
  Claim C2, amended. A call that has signalled the end of the stream leaves the session
  (state \<open>dr\<close>) with its decoder's input source closed, and nothing else marks it as
  ended: a later call goes through the loop again, so whenever it returns it has read the
  input stream at least once more; and in fail-fast mode, when that read again reports
  end of input, it closes the decoder again and returns the end of the stream at once,
  whatever the engine would answer.
\<close>

theorem Read_after_end_of_stream:
  assumes "DecoderReader_Read eng rd dr0 bytes0 = Some (Inr (0, Some io_EOF), dr)"
  shows "(\<exists>h. decoder dr = snd (mpg123_close eng h)) \<and>
         (\<forall>r dr'. DecoderReader_Read eng rd dr bytes = Some (r, dr') \<longrightarrow>
            (\<exists>k. src dr' = src_after rd (Suc k) (src dr))) \<and>
         (\<forall>data s'. paranoid dr \<and> rd (src dr) (64 * 1024) = ((data, Some io_EOF), s') \<longrightarrow>
            DecoderReader_Read eng rd dr bytes =
              Some (Inr (0, Some io_EOF),
                dr\<lparr>src := s', decoder := snd (mpg123_close eng (decoder dr))\<rparr>))"
proof (intro conjI allI impI)
  from Read_eof_closed [OF assms] show "\<exists>h. decoder dr = snd (mpg123_close eng h)" by simp
next
  fix r dr'
  assume "DecoderReader_Read eng rd dr bytes = Some (r, dr')"
  from Read_reads_stream [OF this] show "\<exists>k. src dr' = src_after rd (Suc k) (src dr)" by simp
next
  fix data s'
  assume a: "paranoid dr \<and> rd (src dr) (64 * 1024) = ((data, Some io_EOF), s')"
  then have p: "paranoid dr" and r: "rd (src dr) (64 * 1024) = ((data, Some io_EOF), s')"
    by simp_all
  from Read_Return [OF Read_pass_fail_fast [where rd = rd and dr = dr, OF p r]]
  show "DecoderReader_Read eng rd dr bytes =
      Some (Inr (0, Some io_EOF), dr\<lparr>src := s', decoder := snd (mpg123_close eng (decoder dr))\<rparr>)" .
qed

theorem Read_after_end_of_stream_witness:
  "DecoderReader_Read closing replay dr_failfast_end [0, 0, 0, 0] =
     Some (Inr (0, Some io_EOF), dr_failfast_end1) \<and>
   paranoid dr_failfast_end1 \<and>
   replay (src dr_failfast_end1) (64 * 1024) = (([], Some io_EOF), []) \<and>
   (\<exists>h. decoder dr_failfast_end1 = snd (mpg123_close closing h)) \<and>
   DecoderReader_Read closing replay dr_failfast_end1 [0, 0, 0, 0] =
     Some (Inr (0, Some io_EOF), dr_failfast_end2) \<and>
   (\<exists>k. src dr_failfast_end2 = src_after replay (Suc k) (src dr_failfast_end1))"
proof -
  have p: "paranoid dr_failfast_end1" by (simp add: dr_failfast_end1_def)
  have r: "replay (src dr_failfast_end1) (64 * 1024) = (([], Some io_EOF), [])"
    by (simp add: dr_failfast_end1_def replay_def)
  note t = Read_after_end_of_stream [where rd = replay and bytes = "[0, 0, 0, 0]",
      OF failfast_end_first]
  from t have c: "\<exists>h. decoder dr_failfast_end1 = snd (mpg123_close closing h)" by blast
  from t failfast_end_second
  have k: "\<exists>k. src dr_failfast_end2 = src_after replay (Suc k) (src dr_failfast_end1)" by blast
  from failfast_end_first p r c failfast_end_second k show ?thesis by simp
qed

end
